theory Spec2Isabelle
  imports Main
begin


section \<open>Python strings\<close>

text \<open>
  The services work on Python \<open>str\<close> values. A text is modelled as a list of
  characters whose code points lie in 0..255 (ASCII and Latin-1), which is the range
  \<^typ>\<open>char\<close> covers. The character classes below are Python's own on that range:
  \<open>str.isdecimal\<close> (the class \<open>\d\<close> of \<open>re\<close>), \<open>str.isdigit\<close> (which also accepts
  the superscripts U+00B2, U+00B3 and U+00B9), \<open>str.isspace\<close> (the class \<open>\s\<close>),
  \<open>str.isalnum\<close> or underscore (the class \<open>\w\<close>) and \<open>str.lower\<close>.
\<close>

definition code_point :: "char \<Rightarrow> nat" where
  "code_point c = of_char c"

definition py_isdecimal :: "char \<Rightarrow> bool" where
  "py_isdecimal c = (48 \<le> code_point c \<and> code_point c \<le> 57)"

definition py_isdigit :: "char \<Rightarrow> bool" where
  "py_isdigit c = (py_isdecimal c \<or> code_point c = 178 \<or> code_point c = 179 \<or> code_point c = 185)"

definition py_isspace :: "char \<Rightarrow> bool" where
  "py_isspace c =
     ((9 \<le> code_point c \<and> code_point c \<le> 13) \<or> (28 \<le> code_point c \<and> code_point c \<le> 32)
      \<or> code_point c = 133 \<or> code_point c = 160)"

definition py_isalnum :: "char \<Rightarrow> bool" where
  "py_isalnum c =
     (let n = code_point c in
      (48 \<le> n \<and> n \<le> 57) \<or> (65 \<le> n \<and> n \<le> 90) \<or> (97 \<le> n \<and> n \<le> 122)
      \<or> n = 170 \<or> n = 178 \<or> n = 179 \<or> n = 181 \<or> n = 185 \<or> n = 186
      \<or> (188 \<le> n \<and> n \<le> 190) \<or> (192 \<le> n \<and> n \<le> 214) \<or> (216 \<le> n \<and> n \<le> 246)
      \<or> (248 \<le> n \<and> n \<le> 255))"

definition re_word :: "char \<Rightarrow> bool" where
  "re_word c = (py_isalnum c \<or> code_point c = 95)"

definition py_lower_char :: "char \<Rightarrow> char" where
  "py_lower_char c =
     (let n = code_point c in
      if (65 \<le> n \<and> n \<le> 90) \<or> (192 \<le> n \<and> n \<le> 214) \<or> (216 \<le> n \<and> n \<le> 222)
      then char_of (n + 32) else c)"

definition py_lower :: "string \<Rightarrow> string" where
  "py_lower s = map py_lower_char s"

text \<open>\<open>s.isdigit()\<close>: false on the empty string.\<close>

definition py_str_isdigit :: "string \<Rightarrow> bool" where
  "py_str_isdigit s = (s \<noteq> [] \<and> list_all py_isdigit s)"

text \<open>\<open>needle in haystack\<close> on strings: the needle occurs at some offset.\<close>

definition starts_at :: "string \<Rightarrow> string \<Rightarrow> nat \<Rightarrow> bool" where
  "starts_at needle hay i = (take (length needle) (drop i hay) = needle)"

definition py_in :: "string \<Rightarrow> string \<Rightarrow> bool" where
  "py_in needle hay = list_ex (starts_at needle hay) [0..<Suc (length hay)]"

text \<open>The slice \<open>t[a:b]\<close> for \<open>a \<le> b\<close>.\<close>

definition slice :: "string \<Rightarrow> nat \<Rightarrow> nat \<Rightarrow> string" where
  "slice t a b = take (b - a) (drop a t)"

section \<open>Regular expressions of the OTP extractors\<close>

text \<open>
  Both e-mail services search a text with \<open>re.findall(pattern, text, re.IGNORECASE)\<close>
  for five patterns. A pattern is a sequence of items: the word boundary \<open>\b\<close>, a
  literal matched without regard to case, a greedy bounded repetition of a character
  class (\<open>\d{4,6}\<close>, \<open>[:\s]*\<close>), and the parentheses of group 1. The matcher is
  the backtracking one of \<open>re\<close>: a repetition takes as many characters as it can and
  gives them back one at a time while the rest of the pattern fails.
\<close>

datatype cclass = Digit | ColonSpace

datatype item = WordB | Lit string | Rep cclass nat "nat option" | Open | Close

fun cclass_ok :: "cclass \<Rightarrow> char \<Rightarrow> bool" where
  "cclass_ok Digit c = py_isdecimal c"
| "cclass_ok ColonSpace c = (c = CHR '':'' \<or> py_isspace c)"

definition run_length :: "(char \<Rightarrow> bool) \<Rightarrow> string \<Rightarrow> nat" where
  "run_length P s = length (takeWhile P s)"

text \<open>\<open>\b\<close> at offset \<open>i\<close>: exactly one of the characters before and after is a word character.\<close>

definition word_boundary :: "string \<Rightarrow> nat \<Rightarrow> bool" where
  "word_boundary t i =
     ((0 < i \<and> i \<le> length t \<and> re_word (t ! (i - 1))) \<noteq> (i < length t \<and> re_word (t ! i)))"

definition lit_at :: "string \<Rightarrow> string \<Rightarrow> nat \<Rightarrow> bool" where
  "lit_at s t i = (py_lower (take (length s) (drop i t)) = py_lower s)"

primrec first_some :: "('a \<Rightarrow> 'b option) \<Rightarrow> 'a list \<Rightarrow> 'b option" where
  "first_some f [] = None"
| "first_some f (x # xs) = (case f x of Some y \<Rightarrow> Some y | None \<Rightarrow> first_some f xs)"

type_synonym span = "nat \<times> nat"

text \<open>
  \<open>match_here p t i gs g\<close> matches the items \<open>p\<close> at offset \<open>i\<close> of \<open>t\<close>; \<open>gs\<close> is
  where the open group started and \<open>g\<close> the span of group 1 so far. The result is the
  offset where the match ends, with the span of group 1.
\<close>

primrec match_here :: "item list \<Rightarrow> string \<Rightarrow> nat \<Rightarrow> nat \<Rightarrow> span option \<Rightarrow> (nat \<times> span option) option" where
  "match_here [] t i gs g = Some (i, g)"
| "match_here (x # r) t i gs g =
     (case x of
        WordB \<Rightarrow> if word_boundary t i then match_here r t i gs g else None
      | Lit s \<Rightarrow> if lit_at s t i then match_here r t (i + length s) gs g else None
      | Rep c lo hi \<Rightarrow>
          (let avail = run_length (cclass_ok c) (drop i t);
               k = (case hi of None \<Rightarrow> avail | Some h \<Rightarrow> min h avail)
           in first_some (\<lambda>n. match_here r t (i + n) gs g) (rev [lo..<Suc k]))
      | Open \<Rightarrow> match_here r t i i g
      | Close \<Rightarrow> match_here r t i gs (Some (gs, i)))"

text \<open>The leftmost match that starts at offset \<open>i\<close> or later: start, end, group 1.\<close>

definition search :: "item list \<Rightarrow> string \<Rightarrow> nat \<Rightarrow> (nat \<times> nat \<times> span option) option" where
  "search p t i =
     first_some (\<lambda>s. case match_here p t s s None of None \<Rightarrow> None | Some (e, g) \<Rightarrow> Some (s, e, g))
       [i..<Suc (length t)]"

text \<open>
  What \<open>findall\<close> lists for one match: group 1 when the pattern has a group (the
  empty string when the group took no part), the whole match otherwise.
\<close>

definition match_text :: "item list \<Rightarrow> string \<Rightarrow> nat \<Rightarrow> nat \<Rightarrow> span option \<Rightarrow> string" where
  "match_text p t s e g =
     (if Open \<in> set p then (case g of None \<Rightarrow> [] | Some (a, b) \<Rightarrow> slice t a b) else slice t s e)"

lemma first_some_SomeD: "first_some f xs = Some y \<Longrightarrow> \<exists>x \<in> set xs. f x = Some y"
  by (induction xs) (auto split: option.splits)

lemma search_start: "search p t i = Some (s, e, g) \<Longrightarrow> i \<le> s \<and> s \<le> length t"
  by (auto simp: search_def dest!: first_some_SomeD split: option.splits)

text \<open>
  \<open>findall\<close> scans on from the end of each match; the patterns here never match the
  empty string, and the scan moves at least one character past the start of a match.
\<close>

function findall_from :: "item list \<Rightarrow> string \<Rightarrow> nat \<Rightarrow> string list" where
  "findall_from p t i =
     (case search p t i of
        None \<Rightarrow> []
      | Some (s, e, g) \<Rightarrow> match_text p t s e g # findall_from p t (max (Suc s) e))"
  by pat_completeness auto
termination
  by (relation "measure (\<lambda>(p, t, i). Suc (length t) - i)") (auto dest!: search_start)

definition findall :: "item list \<Rightarrow> string \<Rightarrow> string list" where
  "findall p t = findall_from p t 0"

section \<open>OTP extraction\<close>

text \<open>
  The pattern list of both extractors, in the source's order:
  \<^verbatim>\<open>\b\d{4,6}\b\<close>, \<^verbatim>\<open>OTP[:\s]*(\d{4,6})\<close>, \<^verbatim>\<open>verification[:\s]*(\d{4,6})\<close>,
  \<^verbatim>\<open>code[:\s]*(\d{4,6})\<close>, \<^verbatim>\<open>(\d{4,6})\<close>.
\<close>

definition digits_4_6 :: item where
  "digits_4_6 = Rep Digit 4 (Some 6)"

definition keyword_pattern :: "string \<Rightarrow> item list" where
  "keyword_pattern kw = [Lit kw, Rep ColonSpace 0 None, Open, digits_4_6, Close]"

definition otp_patterns :: "item list list" where
  "otp_patterns =
     [[WordB, digits_4_6, WordB],
      keyword_pattern ''OTP'',
      keyword_pattern ''verification'',
      keyword_pattern ''code'',
      [Open, digits_4_6, Close]]"

text \<open>
  \<open>TempEmailServiceV2._extract_otp_from_text\<close>: for each pattern, the first match is
  returned when it has 4 to 6 characters and \<open>isdigit()\<close> holds; otherwise the next
  pattern is tried.
\<close>

fun extract_v2_loop :: "item list list \<Rightarrow> string \<Rightarrow> string option" where
  "extract_v2_loop [] text = None"
| "extract_v2_loop (pattern # rest) text =
     (case findall pattern text of
        [] \<Rightarrow> extract_v2_loop rest text
      | otp # _ \<Rightarrow>
          if 4 \<le> length otp \<and> length otp \<le> 6 \<and> py_str_isdigit otp then Some otp
          else extract_v2_loop rest text)"

definition extract_otp_from_text :: "string \<Rightarrow> string option" where
  "extract_otp_from_text text = extract_v2_loop otp_patterns text"

text \<open>
  \<open>TempEmailService.extract_otp_from_email\<close>: the body is searched with every pattern
  before the subject is; the first match of the first pattern that matches is returned
  as it is.
\<close>

record email_content =
  subject :: string
  body :: string

fun extract_v1_loop :: "item list list \<Rightarrow> string \<Rightarrow> string option" where
  "extract_v1_loop [] text = None"
| "extract_v1_loop (pattern # rest) text =
     (case findall pattern text of
        [] \<Rightarrow> extract_v1_loop rest text
      | otp # _ \<Rightarrow> Some otp)"

definition extract_otp_from_email :: "email_content \<Rightarrow> string option" where
  "extract_otp_from_email email =
     (case extract_v1_loop otp_patterns (body email) of
        Some otp \<Rightarrow> Some otp
      | None \<Rightarrow> extract_v1_loop otp_patterns (subject email))"

text \<open>
  \<open>TempEmailServiceV2.get_otp\<close> and \<open>_get_mailtm_otp\<close>. The mail provider is
  external: a request either raises or answers with a status code and a decoded body.
  A message of the inbox listing has an optional id; fetching it gives its \<open>text\<close> and
  its \<open>html\<close> parts.
\<close>

datatype 'a http = Raised | Response nat 'a

record mail_message =
  message_id :: "string option"
  message_fetch :: "(string \<times> string list) http"

record email_service =
  service_used :: "string option"
  auth_token :: "string option"
  inbox :: "mail_message list http"

definition truthy :: "string option \<Rightarrow> bool" where
  "truthy v = (case v of None \<Rightarrow> False | Some s \<Rightarrow> s \<noteq> [])"

text \<open>
  The loop over \<open>messages[:5]\<close>. A fetch that raises leaves the loop through the
  handler of \<open>_get_mailtm_otp\<close>, which returns \<open>None\<close>.
\<close>

fun scan_messages :: "mail_message list \<Rightarrow> string option" where
  "scan_messages [] = None"
| "scan_messages (m # ms) =
     (if \<not> truthy (message_id m) then scan_messages ms
      else case message_fetch m of
        Raised \<Rightarrow> None
      | Response status (text_content, html) \<Rightarrow>
          if status \<noteq> 200 then scan_messages ms
          else let html_content = (case html of [] \<Rightarrow> [] | h # _ \<Rightarrow> h) in
            (case extract_otp_from_text (text_content @ '' '' @ html_content) of
               Some otp \<Rightarrow> if otp \<noteq> [] then Some otp else scan_messages ms
             | None \<Rightarrow> scan_messages ms))"

definition get_mailtm_otp :: "email_service \<Rightarrow> string option" where
  "get_mailtm_otp svc =
     (if \<not> truthy (auth_token svc) then None
      else case inbox svc of
        Raised \<Rightarrow> None
      | Response status messages \<Rightarrow>
          if status \<noteq> 200 then None
          else if messages = [] then None
          else scan_messages (take 5 messages))"

definition try_10minutemail_otp :: "string \<Rightarrow> string option" where
  "try_10minutemail_otp email = None"

definition try_tempmail_otp :: "string \<Rightarrow> string option" where
  "try_tempmail_otp email = None"

definition get_otp :: "email_service \<Rightarrow> string \<Rightarrow> string option" where
  "get_otp svc email =
     (if service_used svc = Some ''Mail.tm'' \<and> truthy (auth_token svc) then get_mailtm_otp svc
      else case try_10minutemail_otp email of
        Some otp \<Rightarrow> if otp \<noteq> [] then Some otp else
          (case try_tempmail_otp email of Some otp' \<Rightarrow> if otp' \<noteq> [] then Some otp' else None | None \<Rightarrow> None)
      | None \<Rightarrow>
          (case try_tempmail_otp email of Some otp' \<Rightarrow> if otp' \<noteq> [] then Some otp' else None | None \<Rightarrow> None))"

text \<open>
  The words of the specification, \<open>a digit run of length 4 to 6\<close>: the digit runs of
  a text are its maximal blocks of consecutive decimal digits, and one of them has 4,
  5 or 6 digits.
\<close>

fun runs_from :: "string \<Rightarrow> string \<Rightarrow> string list" where
  "runs_from run [] = (if run = [] then [] else [rev run])"
| "runs_from run (c # cs) =
     (if py_isdecimal c then runs_from (c # run) cs
      else (if run = [] then [] else [rev run]) @ runs_from [] cs)"

definition digit_runs :: "string \<Rightarrow> string list" where
  "digit_runs t = runs_from [] t"

definition has_run_of_4_to_6 :: "string \<Rightarrow> bool" where
  "has_run_of_4_to_6 t = list_ex (\<lambda>run. 4 \<le> length run \<and> length run \<le> 6) (digit_runs t)"

text \<open>
  What decides the extractors instead: whether, at some offset, four consecutive
  characters of the text are decimal digits.
\<close>

definition digit_run_at :: "string \<Rightarrow> nat \<Rightarrow> nat \<Rightarrow> bool" where
  "digit_run_at t i n = (i + n \<le> length t \<and> list_all py_isdecimal (slice t i (i + n)))"

definition has_four_digits :: "string \<Rightarrow> bool" where
  "has_four_digits t = list_ex (\<lambda>i. digit_run_at t i 4) [0..<length t]"

definition decimal_code :: "string \<Rightarrow> bool" where
  "decimal_code otp = (4 \<le> length otp \<and> length otp \<le> 6 \<and> list_all py_isdecimal otp)"

section \<open>Google Sheets service\<close>

text \<open>
  An exception of the Python run time: its class name and its message (\<open>str(e)\<close>).
\<close>

datatype py_error = PyError string string

fun str_of_error :: "py_error \<Rightarrow> string" where
  "str_of_error (PyError cls msg) = msg"

text \<open>
  A Python \<open>dict\<close> with string keys, in insertion order: assigning to a key that is
  present replaces its value in place, assigning to a new key appends it.
  \<open>dict_get d k default\<close> is \<open>d.get(k, default)\<close>.
\<close>

type_synonym dict = "(string \<times> string) list"

fun dict_set :: "string \<Rightarrow> string \<Rightarrow> dict \<Rightarrow> dict" where
  "dict_set k v [] = [(k, v)]"
| "dict_set k v ((k', v') # d) = (if k = k' then (k, v) # d else (k', v') # dict_set k v d)"

definition dict_get :: "dict \<Rightarrow> string \<Rightarrow> string \<Rightarrow> string" where
  "dict_get d k dflt = (case map_of d k of None \<Rightarrow> dflt | Some v \<Rightarrow> v)"

text \<open>The decimal notation of a number, as an f-string prints it.\<close>

function string_of_nat :: "nat \<Rightarrow> string" where
  "string_of_nat n =
     (if n < 10 then [char_of (48 + n)]
      else string_of_nat (n div 10) @ [char_of (48 + n mod 10)])"
  by pat_completeness auto
termination
  by (relation "measure (\<lambda>n. n)") auto

declare string_of_nat.simps [simp del]

text \<open>
  \<open>get_pending_records\<close> reads the range \<open>'Sample '!A:N\<close>. The read either raises or
  gives the rows of the tab, each a list of cell texts (the key \<open>values\<close> is absent
  from the answer of an empty tab, which \<open>result.get('values', [])\<close> turns into the
  empty list). The first row holds the headers.
\<close>

type_synonym sheet_values = "string list list"

text \<open>A pending record is the dictionary \<open>{'row_number': ..., 'data': ...}\<close>.\<close>

record pending_record =
  record_row :: int
  record_fields :: dict

text \<open>\<open>header and 'status' in header.lower()\<close>\<close>

definition is_status_header :: "string \<Rightarrow> bool" where
  "is_status_header header = (header \<noteq> [] \<and> py_in ''status'' (py_lower header))"

text \<open>The loop over \<open>enumerate(headers)\<close>, left at the first status header.\<close>

fun find_status_column :: "string list \<Rightarrow> nat \<Rightarrow> nat option" where
  "find_status_column [] i = None"
| "find_status_column (header # rest) i =
     (if is_status_header header then Some i else find_status_column rest (Suc i))"

text \<open>\<open>status and status.lower() in ['pending', 'pending']\<close>\<close>

definition is_pending :: "string \<Rightarrow> bool" where
  "is_pending status = (status \<noteq> [] \<and> py_lower status \<in> set [''pending'', ''pending''])"

text \<open>The loop over \<open>enumerate(row)\<close> that fills \<open>record_data\<close>.\<close>

fun make_record_data :: "string list \<Rightarrow> string list \<Rightarrow> nat \<Rightarrow> dict \<Rightarrow> dict" where
  "make_record_data headers [] i record_data = record_data"
| "make_record_data headers (v # vs) i record_data =
     make_record_data headers vs (Suc i)
       (dict_set (if i < length headers then headers ! i else ''Column_'' @ string_of_nat (i + 1)) v
          record_data)"

text \<open>The loop over \<open>enumerate(values[1:], start=2)\<close>.\<close>

fun collect_pending :: "string list \<Rightarrow> nat \<Rightarrow> sheet_values \<Rightarrow> int \<Rightarrow> pending_record list" where
  "collect_pending headers status_column_index [] row_index = []"
| "collect_pending headers status_column_index (row # rows) row_index =
     (if length row > status_column_index \<and> is_pending (row ! status_column_index)
      then \<lparr>record_row = row_index, record_fields = make_record_data headers row 0 []\<rparr>
           # collect_pending headers status_column_index rows (row_index + 1)
      else collect_pending headers status_column_index rows (row_index + 1))"

text \<open>
  \<open>except Exception\<close> catches every exception but those that derive from
  \<open>BaseException\<close> alone.
\<close>

definition is_exception :: "py_error \<Rightarrow> bool" where
  "is_exception e =
     (case e of PyError cls msg \<Rightarrow> cls \<notin> set [''KeyboardInterrupt'', ''SystemExit'', ''GeneratorExit''])"

text \<open>
  The argument is what the read of the tab gives: \<open>Inl\<close> the exception it raises, \<open>Inr\<close>
  the rows. The result is a sum as well: \<open>Inl\<close> an exception that leaves the method,
  \<open>Inr\<close> the list it returns. The handler \<open>except Exception\<close> of the method returns
  \<open>[]\<close>. (What the method writes to the logger is left out here.)
\<close>

definition get_pending_records :: "py_error + sheet_values \<Rightarrow> py_error + pending_record list" where
  "get_pending_records read_result =
     (case read_result of
        Inl e \<Rightarrow> if is_exception e then Inr [] else Inl e
      | Inr values \<Rightarrow>
          (case values of
             [] \<Rightarrow> Inr []
           | headers # rows \<Rightarrow>
               (case find_status_column headers 0 of
                  None \<Rightarrow> Inr []
                | Some status_column_index \<Rightarrow>
                    Inr (collect_pending headers status_column_index rows 2))))"

text \<open>
  The words of the specification: a header cell matches \<open>status\<close> by case-insensitive
  substring match when some substring of it equals \<open>status\<close> up to case.
\<close>

definition ci_contains :: "string \<Rightarrow> string \<Rightarrow> bool" where
  "ci_contains needle hay = list_ex (lit_at needle hay) [0..<Suc (length hay)]"

text \<open>
  The three writes of the status sink. A cell of the spreadsheet is addressed by tab,
  column letter and row (\<open>'Sample '!H5\<close>); the spreadsheet maps cells to their texts.
  \<open>values().update(range, valueInputOption='RAW', body={'values': [[v]]}).execute()\<close>
  stores \<open>v\<close> in the cell or raises; \<open>accepted\<close> says which. A call that raises is
  caught by the method, which logs and returns \<open>False\<close>.
\<close>

record cell_ref =
  cell_tab :: string
  cell_column :: char
  cell_row :: int

type_synonym spreadsheet = "cell_ref \<Rightarrow> string option"

definition sample_cell :: "char \<Rightarrow> int \<Rightarrow> cell_ref" where
  "sample_cell letter n = \<lparr>cell_tab = ''Sample '', cell_column = letter, cell_row = n\<rparr>"

definition values_update :: "bool \<Rightarrow> cell_ref \<Rightarrow> string \<Rightarrow> spreadsheet \<Rightarrow> bool \<times> spreadsheet" where
  "values_update accepted range_name v sheet =
     (if accepted then (True, sheet(range_name \<mapsto> v)) else (False, sheet))"

definition update_record_status :: "bool \<Rightarrow> int \<Rightarrow> string \<Rightarrow> spreadsheet \<Rightarrow> bool \<times> spreadsheet" where
  "update_record_status accepted row_number status sheet =
     values_update accepted (sample_cell CHR ''H'' row_number) status sheet"

definition log_error :: "bool \<Rightarrow> int \<Rightarrow> string \<Rightarrow> spreadsheet \<Rightarrow> bool \<times> spreadsheet" where
  "log_error accepted row_number error_message sheet =
     values_update accepted (sample_cell CHR ''N'' row_number) error_message sheet"

definition update_email_used :: "bool \<Rightarrow> int \<Rightarrow> string \<Rightarrow> spreadsheet \<Rightarrow> bool \<times> spreadsheet" where
  "update_email_used accepted row_number email sheet =
     values_update accepted (sample_cell CHR ''M'' row_number) email sheet"

section \<open>The bot and its surroundings\<close>

text \<open>
  What \<open>NusukBot\<close> acts on is kept in a record: the spreadsheet behind the status
  sink, the lines the logger has written, the keys sent to input fields of the page,
  the temporary directories that exist, and the browser sessions that are open.
  Directories and sessions are named by numbers, handed out in order (\<open>mkdtemp\<close> and
  a driver constructor never give the same one twice).
\<close>

record world =
  sheet :: spreadsheet
  logged :: "string list"
  typed :: "(string \<times> string) list"
  tmp_dirs :: "nat set"
  sessions :: "nat set"
  next_id :: nat

text \<open>The attributes of the bot object; \<open>temp_dir\<close> is \<open>None\<close> while the attribute is not set.\<close>

record bot =
  driver :: "nat option"
  temp_dir :: "nat option"
  current_email :: "string option"
  current_record :: "pending_record option"

text \<open>
  Of the logger's output the model keeps the lines of \<open>log_step\<close>, with which every
  step announces itself before it does anything else, and the lines of \<open>info\<close> by
  which the two manual steps say that they assume success.
\<close>

definition log_step :: "string \<Rightarrow> string \<Rightarrow> world \<Rightarrow> world" where
  "log_step step status w = w\<lparr>logged := logged w @ [''STEP: '' @ step @ '' - '' @ status]\<rparr>"

definition log_info :: "string \<Rightarrow> world \<Rightarrow> world" where
  "log_info message w = w\<lparr>logged := logged w @ [message]\<rparr>"

definition string_of_int :: "int \<Rightarrow> string" where
  "string_of_int i = (if i < 0 then ''-'' @ string_of_nat (nat (- i)) else string_of_nat (nat i))"

text \<open>\<open>s.strip()\<close>\<close>

definition py_strip :: "string \<Rightarrow> string" where
  "py_strip s = rev (dropWhile py_isspace (rev (dropWhile py_isspace s)))"

subsection \<open>The page\<close>

text \<open>
  The website is outside the program. \<open>driver.find_element("xpath", ...)\<close> on a
  selector raises (\<open>Missing\<close>: there is no such element, or the selector is not an
  XPath expression, as the CSS selectors in the lists of the manual steps are not), or
  finds an element that \<open>is_displayed()\<close> or is not. An input field looked up with
  \<open>wait.until(presence_of_element_located)\<close> times out, or is found; a found element
  may still refuse \<open>clear()\<close> or \<open>send_keys()\<close> by raising.
\<close>

datatype probe = Missing | Hidden | Shown

type_synonym page = "string \<Rightarrow> probe"

datatype input_probe = Timeout | Input bool bool

text \<open>
  What the site does while one record is processed. The steps \<open>switch_to_english\<close>
  and \<open>fill_personal_details\<close>, and the visa, nationality and Next-button phases of
  \<open>fill_initial_info\<close>, drive the page only; they enter by their outcome. The other
  steps are modelled on the probes they make. In the two manual steps the calls
  outside the inner handlers (the logger, \<open>time.sleep\<close>) are the ones that can reach
  the outer handler \<open>except Exception: ... return False\<close>; \<open>account_step_raises\<close>
  and \<open>otp_step_raises\<close> say that one of them raises.
\<close>

record site =
  browser_raises :: bool
  page_title :: string
  page_source_length :: nat
  english_switched :: bool
  guest_radio :: bool
  guest_fallback :: "nat \<Rightarrow> bool"
  guest_text_search :: bool
  visa_filled :: bool
  nationality_filled :: bool
  passport_page :: "string \<Rightarrow> input_probe"
  next_clicked :: bool
  personal_filled :: bool
  account_step_raises :: bool
  account_page :: page
  otp_step_raises :: bool
  otp_page :: page
  otp_page_source :: "py_error + string"
  otp_page_after :: page

text \<open>
  The loop \<open>for selector in ...: try: element = find_element(selector); if
  element.is_displayed(): found = True; break; except: continue\<close>.
\<close>

fun any_displayed :: "page \<Rightarrow> string list \<Rightarrow> bool" where
  "any_displayed p [] = False"
| "any_displayed p (selector # rest) =
     (case p selector of Shown \<Rightarrow> True | Hidden \<Rightarrow> any_displayed p rest | Missing \<Rightarrow> any_displayed p rest)"

subsection \<open>The steps\<close>

text \<open>
  \<open>navigate_to_nusuk\<close>. Without a driver, or when a driver call raises, the handler
  returns \<open>False\<close>.
\<close>

definition navigate_to_nusuk :: "bot \<Rightarrow> site \<Rightarrow> world \<Rightarrow> bool \<times> world" where
  "navigate_to_nusuk self st w =
     (let w1 = log_step ''Navigating to Nusuk website'' ''STARTED'' w in
      if driver self = None \<or> browser_raises st then (False, w1)
      else if py_in ''nusuk'' (py_lower (page_title st)) then (True, w1)
      else if page_title st \<noteq> [] \<and> length (py_strip (page_title st)) > 0 then
        (if page_source_length st > 1000 then (True, w1) else (False, w1))
      else (False, w1))"

definition switch_to_english :: "site \<Rightarrow> world \<Rightarrow> bool \<times> world" where
  "switch_to_english st w =
     (let w1 = log_step ''Switching to English'' ''STARTED'' w in (english_switched st, w1))"

text \<open>
  \<open>select_foreign_guest\<close>: the radio button with id \<open>type3\<close>; failing that, the
  eleven fallback selectors in order (\<open>guest_fallback st k\<close>: selector \<open>k\<close> becomes
  clickable and the click goes through); failing that, the search of the page text.
\<close>

definition select_foreign_guest :: "site \<Rightarrow> world \<Rightarrow> bool \<times> world" where
  "select_foreign_guest st w =
     (let w1 = log_step ''Selecting Foreign Guest'' ''STARTED'' w in
      if guest_radio st then (True, w1)
      else if list_ex (guest_fallback st) [0..<11] then (True, w1)
      else if guest_text_search st then (True, w1)
      else (False, w1))"

text \<open>
  \<open>simulate_human_typing(element, text)\<close>: \<open>clear()\<close> and then the characters one by
  one; when that raises, \<open>clear()\<close> and \<open>send_keys(text)\<close> once more, whose exception
  reaches the caller. The result is the text the field received.
\<close>

definition simulate_human_typing :: "input_probe \<Rightarrow> string \<Rightarrow> py_error + string" where
  "simulate_human_typing element txt =
     (case element of
        Timeout \<Rightarrow> Inl (PyError ''NoSuchElementException'' [])
      | Input clear_ok keys_ok \<Rightarrow>
          if clear_ok \<and> (keys_ok \<or> txt = []) then Inr txt
          else Inl (PyError ''WebDriverException'' []))"

text \<open>\<open>a or b or ...\<close> on strings: the first operand that is not empty, else the last.\<close>

fun py_or :: "string list \<Rightarrow> string" where
  "py_or [] = []"
| "py_or [x] = x"
| "py_or (x # y # rest) = (if x \<noteq> [] then x else py_or (y # rest))"

definition passport_keys :: "string list" where
  "passport_keys =
     [''Passport NO'', ''PASSPORT NO'', ''Passport Number'', ''PASSPORT NUMBER'', ''Passport'', ''PASSPORT'']"

definition passport_number_of :: "dict \<Rightarrow> string" where
  "passport_number_of record_data = py_or (map (\<lambda>k. dict_get record_data k []) passport_keys)"

definition default_passport :: string where
  "default_passport = ''AB315033''"

definition passport_selectors :: "string list" where
  "passport_selectors =
     [''//input[@placeholder='Passport Number']'',
      ''//input[contains(@placeholder, 'Passport')]'',
      ''//input[@name='passport']'',
      ''//input[@id='passport']'',
      ''#passport-number'',
      ''[data-field='passport']'']"

text \<open>
  The passport loop of \<open>fill_initial_info\<close>: the flag \<open>passport_filled\<close> and the keys
  sent, as pairs of selector and text. A selector that times out is skipped; so is one
  whose element raises on \<open>clear()\<close> or while typing.
\<close>

fun passport_loop :: "(string \<Rightarrow> input_probe) \<Rightarrow> dict \<Rightarrow> string list \<Rightarrow> bool \<times> (string \<times> string) list" where
  "passport_loop p record_data [] = (False, [])"
| "passport_loop p record_data (selector # rest) =
     (case p selector of
        Timeout \<Rightarrow> passport_loop p record_data rest
      | Input clear_ok keys_ok \<Rightarrow>
          if \<not> clear_ok then passport_loop p record_data rest
          else
            let passport_number = passport_number_of record_data in
            if passport_number \<noteq> [] then
              (case simulate_human_typing (Input clear_ok keys_ok) passport_number of
                 Inl e \<Rightarrow> passport_loop p record_data rest
               | Inr sent \<Rightarrow> (True, [(selector, sent)]))
            else
              (case simulate_human_typing (Input clear_ok keys_ok) default_passport of
                 Inl e \<Rightarrow> passport_loop p record_data rest
               | Inr sent \<Rightarrow> (True, [(selector, sent)])))"

definition fill_passport_number :: "(string \<Rightarrow> input_probe) \<Rightarrow> dict \<Rightarrow> bool \<times> (string \<times> string) list" where
  "fill_passport_number p record_data = passport_loop p record_data passport_selectors"

definition fill_initial_info :: "site \<Rightarrow> dict \<Rightarrow> world \<Rightarrow> bool \<times> world" where
  "fill_initial_info st record_data w =
     (let w1 = log_step ''Filling initial information'' ''STARTED'' w in
      if \<not> visa_filled st then (False, w1)
      else
        let w2 = w1\<lparr>typed := typed w1 @ [(''Visa Number'', dict_get record_data ''VISA NO'' [])]\<rparr> in
        if \<not> nationality_filled st then (False, w2)
        else
          let (passport_filled, sent) = fill_passport_number (passport_page st) record_data;
              w3 = w2\<lparr>typed := typed w2 @ sent\<rparr>
          in if \<not> passport_filled then (False, w3) else (next_clicked st, w3))"

definition fill_personal_details :: "site \<Rightarrow> dict \<Rightarrow> world \<Rightarrow> bool \<times> world" where
  "fill_personal_details st record_data w =
     (let w1 = log_step ''Filling personal details'' ''STARTED'' w in (personal_filled st, w1))"

text \<open>
  \<open>create_account\<close>: after the countdown of 15 seconds the page is probed for a
  success indicator; without one, error elements are looked for and only logged. An
  exception of the countdown ends the step in its outer handler, with \<open>False\<close>.
\<close>

definition account_success_indicators :: "string list" where
  "account_success_indicators =
     [''//div[contains(text(), 'success')]'',
      ''//div[contains(text(), 'Success')]'',
      ''//div[contains(text(), 'Account created')]'',
      ''//div[contains(text(), 'Verification')]'',
      ''//div[contains(text(), 'OTP')]'',
      ''//div[contains(text(), 'verification code')]'',
      ''//input[@name='otp']'',
      ''//input[@placeholder*='OTP']'',
      ''//input[@placeholder*='verification']'']"

definition create_account :: "site \<Rightarrow> bot \<Rightarrow> world \<Rightarrow> bool \<times> bot \<times> world" where
  "create_account st self w =
     (let w1 = log_step ''Creating account'' ''STARTED'' w in
      if account_step_raises st then (False, self, w1)
      else
        let success_found = any_displayed (account_page st) account_success_indicators;
            w2 = (if \<not> success_found
                  then log_info ''No clear success/error indicators found - assuming manual completion was successful'' w1
                  else w1)
        in (True, self\<lparr>current_email := Some ''MANUAL_INPUT_COMPLETED''\<rparr>, w2))"

text \<open>
  \<open>verify_email_otp\<close>: after \<open>time.sleep(3)\<close> the page is probed for an OTP input.
  When none is displayed the page source decides (\<open>otp_page_source\<close> is \<open>Inl\<close> when
  reading the URL, the title or the source raises); when one is, the countdown of 20
  seconds runs and the page is probed for a success indicator. An exception of a
  sleep or of the logger ends the step in its outer handler, with \<open>False\<close>.
\<close>

definition otp_selectors :: "string list" where
  "otp_selectors =
     [''//input[@name='otp']'',
      ''//input[@name='verification_code']'',
      ''//input[@name='code']'',
      ''//input[@id='otp']'',
      ''//input[@id='verification_code']'',
      ''//input[@id='code']'',
      ''#otp'',
      ''#verification_code'',
      ''#code'',
      ''[data-field='otp']'',
      ''[data-field='verification_code']'']"

definition otp_success_indicators :: "string list" where
  "otp_success_indicators =
     [''//div[contains(text(), 'success')]'',
      ''//div[contains(text(), 'Success')]'',
      ''//div[contains(text(), 'verified')]'',
      ''//div[contains(text(), 'Verification successful')]'',
      ''//div[contains(text(), 'Account activated')]'',
      ''//button[contains(text(), 'Continue')]'',
      ''//button[contains(text(), 'Next')]'',
      ''//a[contains(text(), 'Continue')]'']"

definition verify_email_otp :: "site \<Rightarrow> world \<Rightarrow> bool \<times> world" where
  "verify_email_otp st w =
     (let w1 = log_step ''Verifying email with OTP'' ''STARTED'' w;
          otp_field_found = any_displayed (otp_page st) otp_selectors
      in if otp_step_raises st then (False, w1)
         else if \<not> otp_field_found then
           (case otp_page_source st of
              Inl e \<Rightarrow> (False, w1)
            | Inr page_source \<Rightarrow>
                let page_text = py_lower page_source in
                if py_in ''error'' page_text \<or> py_in ''failed'' page_text then (False, w1)
                else if py_in ''success'' page_text \<or> py_in ''verification'' page_text then (True, w1)
                else (True, w1))
         else
           let success_found = any_displayed (otp_page_after st) otp_success_indicators;
               w2 = (if \<not> success_found
                     then log_info ''No clear success indicators found - assuming manual verification was successful'' w1
                     else w1)
           in (True, w2))"

section \<open>Processing records and the run\<close>

text \<open>
  What surrounds a run: how each driver comes up, whether \<open>mkdtemp\<close> and the writing
  of the profile files work, what the read of the spreadsheet gives, what the site does
  for the record of each row, which cells the spreadsheet service accepts a write to,
  and whether \<open>driver.quit()\<close> raises and \<open>shutil.rmtree\<close> removes the directory.
\<close>

datatype launch = ImportFails | LaunchFails | Launches

record env =
  firefox_starts :: bool
  undetected_chrome :: launch
  standard_chrome_starts :: bool
  mkdtemp_works :: bool
  profile_written :: bool
  sheet_read :: "py_error + sheet_values"
  site_of :: "int \<Rightarrow> site"
  sink_accepts :: "cell_ref \<Rightarrow> bool"
  quit_raises :: bool
  rmtree_works :: bool

text \<open>The calls of the bot to its \<open>sheets_service\<close>; the value each returns is not used.\<close>

definition sheets_update_record_status :: "env \<Rightarrow> int \<Rightarrow> string \<Rightarrow> world \<Rightarrow> world" where
  "sheets_update_record_status e n status w =
     w\<lparr>sheet := snd (update_record_status (sink_accepts e (sample_cell CHR ''H'' n)) n status (sheet w))\<rparr>"

definition sheets_update_email_used :: "env \<Rightarrow> int \<Rightarrow> string \<Rightarrow> world \<Rightarrow> world" where
  "sheets_update_email_used e n email w =
     w\<lparr>sheet := snd (update_email_used (sink_accepts e (sample_cell CHR ''M'' n)) n email (sheet w))\<rparr>"

definition sheets_log_error :: "env \<Rightarrow> int \<Rightarrow> string \<Rightarrow> world \<Rightarrow> world" where
  "sheets_log_error e n error_message w =
     w\<lparr>sheet := snd (log_error (sink_accepts e (sample_cell CHR ''N'' n)) n error_message (sheet w))\<rparr>"

text \<open>
  \<open>process_record\<close>: the seven steps in order, each guarded by \<open>if not ...: return
  False\<close>; after the last, the status \<open>In Progress\<close> and the e-mail used are written.
  Every step catches its own exceptions, so the handler of \<open>process_record\<close>, which
  alone calls \<open>log_error\<close>, is reached by no failure of a step.
\<close>

definition process_record :: "env \<Rightarrow> bot \<Rightarrow> pending_record \<Rightarrow> world \<Rightarrow> bool \<times> bot \<times> world" where
  "process_record e self record w =
     (let w0 = log_step ''Processing record'' (''Row '' @ string_of_int (record_row record)) w;
          self0 = self\<lparr>current_record := Some record\<rparr>;
          record_data = record_fields record;
          st = site_of e (record_row record);
          (ok1, w1) = navigate_to_nusuk self0 st w0
      in if \<not> ok1 then (False, self0, w1) else
      let (ok2, w2) = switch_to_english st w1
      in if \<not> ok2 then (False, self0, w2) else
      let (ok3, w3) = select_foreign_guest st w2
      in if \<not> ok3 then (False, self0, w3) else
      let (ok4, w4) = fill_initial_info st record_data w3
      in if \<not> ok4 then (False, self0, w4) else
      let (ok5, w5) = fill_personal_details st record_data w4
      in if \<not> ok5 then (False, self0, w5) else
      let (ok6, self6, w6) = create_account st self0 w5
      in if \<not> ok6 then (False, self6, w6) else
      let (ok7, w7) = verify_email_otp st w6
      in if \<not> ok7 then (False, self6, w7) else
      let w8 = sheets_update_record_status e (record_row record) ''In Progress'' w7;
          w9 = (if truthy (current_email self6)
                then sheets_update_email_used e (record_row record) (the (current_email self6)) w8
                else w8)
      in (True, self6, w9))"

text \<open>
  The body of the loop of \<open>run_automation\<close> for one record: on failure the status
  \<open>Failed\<close> is written. (The handler of the loop, which also calls \<open>log_error\<close>, needs
  an exception out of \<open>process_record\<close>, which catches every one.)
\<close>

definition handle_record :: "env \<Rightarrow> bot \<Rightarrow> pending_record \<Rightarrow> world \<Rightarrow> bot \<times> world" where
  "handle_record e self record w =
     (let (success, self1, w1) = process_record e self record w
      in if success then (self1, w1)
         else (self1, sheets_update_record_status e (record_row record) ''Failed'' w1))"

fun process_records :: "env \<Rightarrow> bot \<Rightarrow> pending_record list \<Rightarrow> world \<Rightarrow> bot \<times> world" where
  "process_records e self [] w = (self, w)"
| "process_records e self (record # rest) w =
     (let (self1, w1) = handle_record e self record w in process_records e self1 rest w1)"

subsection \<open>Drivers and the stealth profile\<close>

text \<open>
  \<open>_create_stealth_profile\<close>: \<open>mkdtemp\<close> makes a new directory; when the profile files
  are written the bot keeps the directory in \<open>temp_dir\<close> and returns the profile, when
  anything raises the handler returns \<open>None\<close>.
\<close>

definition create_stealth_profile :: "env \<Rightarrow> bot \<Rightarrow> world \<Rightarrow> nat option \<times> bot \<times> world" where
  "create_stealth_profile e self w =
     (if \<not> mkdtemp_works e then (None, self, w)
      else
        let d = next_id w;
            w1 = w\<lparr>tmp_dirs := insert d (tmp_dirs w), next_id := Suc d\<rparr>
        in if \<not> profile_written e then (None, self, w1)
           else (Some d, self\<lparr>temp_dir := Some d\<rparr>, w1))"

text \<open>A driver constructor that succeeds opens a browser session, kept in \<open>self.driver\<close>.\<close>

definition open_session :: "bot \<Rightarrow> world \<Rightarrow> bot \<times> world" where
  "open_session self w =
     (let s = next_id w
      in (self\<lparr>driver := Some s\<rparr>, w\<lparr>sessions := insert s (sessions w), next_id := Suc s\<rparr>))"

text \<open>\<open>_setup_firefox_driver\<close> returns \<open>True\<close> when Firefox is up and \<open>False\<close> from its handler.\<close>

definition setup_firefox_driver :: "env \<Rightarrow> bot \<Rightarrow> world \<Rightarrow> bool \<times> bot \<times> world" where
  "setup_firefox_driver e self w =
     (if firefox_starts e then (let (self1, w1) = open_session self w in (True, self1, w1))
      else (False, self, w))"

text \<open>
  \<open>_setup_undetected_driver\<close> and \<open>_setup_standard_driver\<close> re-raise from their
  handlers and have no \<open>return\<close> statement: they raise (\<open>Inl\<close>) or return \<open>None\<close>
  (\<open>Inr ()\<close>).
\<close>

definition setup_undetected_driver :: "env \<Rightarrow> bot \<Rightarrow> world \<Rightarrow> (py_error + unit) \<times> bot \<times> world" where
  "setup_undetected_driver e self w =
     (case undetected_chrome e of
        ImportFails \<Rightarrow> (Inl (PyError ''ImportError'' ''undetected_chromedriver is required''), self, w)
      | LaunchFails \<Rightarrow>
          (let (stealth_profile, self1, w1) = create_stealth_profile e self w
           in (Inl (PyError ''WebDriverException'' []), self1, w1))
      | Launches \<Rightarrow>
          (let (stealth_profile, self1, w1) = create_stealth_profile e self w;
               (self2, w2) = open_session self1 w1
           in (Inr (), self2, w2)))"

definition setup_standard_driver :: "env \<Rightarrow> bot \<Rightarrow> world \<Rightarrow> (py_error + unit) \<times> bot \<times> world" where
  "setup_standard_driver e self w =
     (let (stealth_profile, self1, w1) = create_stealth_profile e self w
      in if standard_chrome_starts e
         then (let (self2, w2) = open_session self1 w1 in (Inr (), self2, w2))
         else (Inl (PyError ''Exception'' ''Chrome setup failed. Please install Chrome browser and try again.''),
               self1, w1))"

text \<open>
  \<open>setup_driver\<close> tests the result of each of the three: \<open>None\<close> is not true, so after
  \<open>_setup_undetected_driver\<close> has returned, \<open>_setup_standard_driver\<close> is called as
  well; an exception of either ends \<open>setup_driver\<close> in its handler.
\<close>

definition setup_driver :: "env \<Rightarrow> bot \<Rightarrow> world \<Rightarrow> bool \<times> bot \<times> world" where
  "setup_driver e self w =
     (let w0 = log_step ''Setting up Undetected Chrome WebDriver'' ''STARTED'' w;
          (started, self1, w1) = setup_firefox_driver e self w0
      in if started then (True, self1, w1)
         else
           (case setup_undetected_driver e self1 w1 of
              (Inl err, self2, w2) \<Rightarrow> (False, self2, w2)
            | (Inr none, self2, w2) \<Rightarrow>
                (case setup_standard_driver e self2 w2 of
                   (Inl err, self3, w3) \<Rightarrow> (False, self3, w3)
                 | (Inr none', self3, w3) \<Rightarrow> (False, self3, w3))))"

text \<open>\<open>_cleanup_stealth_profile\<close>: \<open>shutil.rmtree(self.temp_dir, ignore_errors=True)\<close>.\<close>

definition cleanup_stealth_profile :: "env \<Rightarrow> bot \<Rightarrow> world \<Rightarrow> world" where
  "cleanup_stealth_profile e self w =
     (case temp_dir self of
        None \<Rightarrow> w
      | Some d \<Rightarrow> if rmtree_works e then w\<lparr>tmp_dirs := tmp_dirs w - {d}\<rparr> else w)"

text \<open>
  The \<open>finally\<close> block of \<open>run_automation\<close>: \<open>if self.driver: self.driver.quit()\<close> and
  then the cleanup of the profile. An exception of \<open>quit()\<close> leaves the block.
\<close>

definition close_run :: "env \<Rightarrow> bot \<Rightarrow> world \<Rightarrow> py_error option \<times> bot \<times> world" where
  "close_run e self w =
     (case driver self of
        None \<Rightarrow> (None, self, cleanup_stealth_profile e self w)
      | Some s \<Rightarrow>
          if quit_raises e then (Some (PyError ''WebDriverException'' []), self, w)
          else (None, self, cleanup_stealth_profile e self (w\<lparr>sessions := sessions w - {s}\<rparr>)))"

text \<open>
  \<open>run_automation\<close>. The result of \<open>setup_driver\<close> is not looked at. An exception
  that \<open>get_pending_records\<close> lets through is not caught by \<open>except Exception\<close>
  either; the \<open>finally\<close> block runs and the exception leaves the method, unless the
  block raises its own. The first component of the result is the exception that
  leaves the method, if any.
\<close>

definition run_automation :: "env \<Rightarrow> bot \<Rightarrow> world \<Rightarrow> py_error option \<times> bot \<times> world" where
  "run_automation e self w =
     (let w0 = log_step ''Starting Nusuk automation'' ''STARTED'' w;
          (ready, self1, w1) = setup_driver e self w0;
          (raised, self2, w2) =
            (case get_pending_records (sheet_read e) of
               Inl err \<Rightarrow> (Some err, self1, w1)
             | Inr pending_records \<Rightarrow>
                 if pending_records = [] then (None, self1, w1)
                 else (let (self', w') = process_records e self1 pending_records w1
                       in (None, self', w')));
          (raised_in_finally, self3, w3) = close_run e self2 w2
      in (if raised_in_finally \<noteq> None then raised_in_finally else raised, self3, w3))"

text \<open>The bot as \<open>__init__\<close> leaves it, and a world with nothing in it.\<close>

definition new_bot :: bot where
  "new_bot = \<lparr>driver = None, temp_dir = None, current_email = None, current_record = None\<rparr>"

definition empty_world :: world where
  "empty_world = \<lparr>sheet = Map.empty, logged = [], typed = [], tmp_dirs = {}, sessions = {}, next_id = 0\<rparr>"

subsection \<open>The pipeline as a list of steps\<close>

text \<open>
  To speak of step \<open>k\<close> of \<open>process_record\<close>, its seven calls are listed in the order
  of the source, each as a function of the bot and the world, and each with the line
  its \<open>log_step\<close> writes when it is invoked.
\<close>

type_synonym step = "bot \<times> world \<Rightarrow> bool \<times> bot \<times> world"

definition pipeline :: "site \<Rightarrow> dict \<Rightarrow> step list" where
  "pipeline st record_data =
     [\<lambda>(self, w). (let (ok, w1) = navigate_to_nusuk self st w in (ok, self, w1)),
      \<lambda>(self, w). (let (ok, w1) = switch_to_english st w in (ok, self, w1)),
      \<lambda>(self, w). (let (ok, w1) = select_foreign_guest st w in (ok, self, w1)),
      \<lambda>(self, w). (let (ok, w1) = fill_initial_info st record_data w in (ok, self, w1)),
      \<lambda>(self, w). (let (ok, w1) = fill_personal_details st record_data w in (ok, self, w1)),
      \<lambda>(self, w). create_account st self w,
      \<lambda>(self, w). (let (ok, w1) = verify_email_otp st w in (ok, self, w1))]"

definition step_names :: "string list" where
  "step_names =
     [''Navigating to Nusuk website'', ''Switching to English'', ''Selecting Foreign Guest'',
      ''Filling initial information'', ''Filling personal details'', ''Creating account'',
      ''Verifying email with OTP'']"

definition step_started :: "string \<Rightarrow> string" where
  "step_started name = ''STEP: '' @ name @ '' - STARTED''"

text \<open>The steps that have been invoked, read off the log.\<close>

definition steps_started :: "world \<Rightarrow> string list" where
  "steps_started w = filter (\<lambda>line. line \<in> set (map step_started step_names)) (logged w)"

text \<open>The bot and the world after the steps of a list have all been run, one after the other.\<close>

fun run_all :: "step list \<Rightarrow> bot \<times> world \<Rightarrow> bot \<times> world" where
  "run_all [] s = s"
| "run_all (f # fs) s = run_all fs (snd (f s))"

text \<open>The bot and the world in which \<open>process_record\<close> calls its first step.\<close>

definition record_start :: "bot \<Rightarrow> pending_record \<Rightarrow> world \<Rightarrow> bot \<times> world" where
  "record_start self record w =
     (self\<lparr>current_record := Some record\<rparr>,
      log_step ''Processing record'' (''Row '' @ string_of_int (record_row record)) w)"

text \<open>The bot and the world in which step \<open>k\<close> is called if all steps before it are.\<close>

definition state_before :: "env \<Rightarrow> bot \<Rightarrow> pending_record \<Rightarrow> world \<Rightarrow> nat \<Rightarrow> bot \<times> world" where
  "state_before e self record w k =
     run_all (take k (pipeline (site_of e (record_row record)) (record_fields record)))
       (record_start self record w)"

text \<open>What step \<open>k\<close> returns there.\<close>

definition step_returns :: "env \<Rightarrow> bot \<Rightarrow> pending_record \<Rightarrow> world \<Rightarrow> nat \<Rightarrow> bool" where
  "step_returns e self record w k =
     fst ((pipeline (site_of e (record_row record)) (record_fields record) ! k)
            (state_before e self record w k))"

text \<open>Running a list of steps until one returns \<open>False\<close>.\<close>

fun run_steps :: "step list \<Rightarrow> bot \<times> world \<Rightarrow> bool \<times> bot \<times> world" where
  "run_steps [] s = (True, s)"
| "run_steps (f # fs) s = (case f s of (ok, s1) \<Rightarrow> if ok then run_steps fs s1 else (False, s1))"

subsection \<open>A sample run\<close>

text \<open>
  The work item of the end-to-end scenarios, row 5 of the tab, on a site where every
  step goes through and the two manual steps end without a success indicator; and the
  same site with no way to select the guest type.
\<close>

definition sample_site :: site where
  "sample_site =
     \<lparr>browser_raises = False, page_title = ''Nusuk'', page_source_length = 5000,
      english_switched = True, guest_radio = True, guest_fallback = (\<lambda>k. False),
      guest_text_search = False, visa_filled = True, nationality_filled = True,
      passport_page = (\<lambda>selector. if selector = ''#passport-number'' then Input True True else Timeout),
      next_clicked = True, personal_filled = True, account_step_raises = False,
      account_page = (\<lambda>selector. Missing), otp_step_raises = False,
      otp_page = (\<lambda>selector. if selector = ''//input[@name='otp']'' then Shown else Missing),
      otp_page_source = Inr [], otp_page_after = (\<lambda>selector. Missing)\<rparr>"



definition no_guest_site :: site where
  "no_guest_site = sample_site\<lparr>guest_radio := False\<rparr>"

definition sample_record :: pending_record where
  "sample_record =
     \<lparr>record_row = 5,
      record_fields = [(''VISA NO'', ''V123''), (''NATIONALITY'', ''India''), (''Passport NO'', ''P1'')]\<rparr>"

definition sample_values :: sheet_values where
  "sample_values =
     [[''VISA NO'', ''NATIONALITY'', ''Passport NO'', ''STATUS''],
      [''V120'', ''India'', ''P7'', ''In Progress''],
      [''V121'', ''India'', ''P8'', ''In Progress''],
      [''V122'', ''India'', ''P9'', ''Failed''],
      [''V123'', ''India'', ''P1'', ''pending'']]"

definition sample_env :: env where
  "sample_env =
     \<lparr>firefox_starts = True, undetected_chrome = Launches, standard_chrome_starts = True,
      mkdtemp_works = True, profile_written = True, sheet_read = Inr sample_values,
      site_of = (\<lambda>n. no_guest_site), sink_accepts = (\<lambda>c. True), quit_raises = False,
      rmtree_works = True\<rparr>"

text \<open>The sample site with an account step whose countdown raises.\<close>

definition account_raises_env :: env where
  "account_raises_env = sample_env\<lparr>site_of := (\<lambda>n. sample_site\<lparr>account_step_raises := True\<rparr>)\<rparr>"



text \<open>A bot whose browser is up.\<close>

definition ready_bot :: bot where
  "ready_bot = new_bot\<lparr>driver := Some 0\<rparr>"


section \<open>Properties of the OTP extractors\<close>


lemma first_some_None_iff: "first_some f xs = None \<longleftrightarrow> (\<forall>x \<in> set xs. f x = None)"
  by (induction xs) (auto split: option.splits)

lemma take_run_length: "n \<le> run_length P xs \<Longrightarrow> list_all P (take n xs) \<and> length (take n xs) = n"
proof (induction xs arbitrary: n)
  case Nil
  then show ?case by (simp add: run_length_def)
next
  case (Cons x xs)
  then show ?case by (cases n) (auto simp: run_length_def split: if_splits)
qed

lemma digits_item_match:
  assumes "match_here (digits_4_6 # r) t i gs g = Some res"
  shows "\<exists>n. 4 \<le> n \<and> n \<le> 6 \<and> n \<le> run_length py_isdecimal (drop i t) \<and> match_here r t (i + n) gs g = Some res"
proof -
  have eq: "cclass_ok Digit = py_isdecimal" by (rule ext) simp
  from assms have "first_some (\<lambda>n. match_here r t (i + n) gs g)
      (rev [4..<Suc (min 6 (run_length py_isdecimal (drop i t)))]) = Some res"
    by (simp add: digits_4_6_def Let_def eq del: upt.simps)
  then obtain n where n: "n \<in> set (rev [4..<Suc (min 6 (run_length py_isdecimal (drop i t)))])"
      and m: "match_here r t (i + n) gs g = Some res"
    by (blast dest: first_some_SomeD)
  from n have "4 \<le> n \<and> n \<le> 6 \<and> n \<le> run_length py_isdecimal (drop i t)" by auto
  with m show ?thesis by blast
qed

lemma run_has_four_digits:
  assumes "4 \<le> run_length py_isdecimal (drop i t)"
  shows "has_four_digits t"
proof -
  from take_run_length[OF assms] have a: "list_all py_isdecimal (take 4 (drop i t))" and l: "length (take 4 (drop i t)) = 4"
    by auto
  from l have le: "i + 4 \<le> length t" by auto
  with a have "digit_run_at t i 4" by (simp add: digit_run_at_def slice_def)
  moreover from le have "i \<in> set [0..<length t]" by auto
  ultimately show ?thesis unfolding has_four_digits_def list_ex_iff by blast
qed

lemma match_needs_digits:
  "digits_4_6 \<in> set p \<Longrightarrow> match_here p t i gs g = Some res \<Longrightarrow> has_four_digits t"
proof (induction p arbitrary: i gs g)
  case Nil
  then show ?case by simp
next
  case (Cons x p)
  show ?case
  proof (cases "x = digits_4_6")
    case True
    with Cons.prems(2) have "match_here (digits_4_6 # p) t i gs g = Some res" by simp
    from digits_item_match[OF this] obtain n where "4 \<le> n" "n \<le> run_length py_isdecimal (drop i t)"
      by blast
    then have "4 \<le> run_length py_isdecimal (drop i t)" by simp
    then show ?thesis by (rule run_has_four_digits)
  next
    case False
    with Cons.prems(1) have mem: "digits_4_6 \<in> set p" by simp
    from Cons.prems(2) obtain i' gs' g' where "match_here p t i' gs' g' = Some res"
      by (cases x) (auto simp: Let_def simp del: upt.simps dest!: first_some_SomeD split: if_splits)
    with Cons.IH[OF mem] show ?thesis by blast
  qed
qed

lemma match_cons_tail:
  "match_here (x # p) t i gs g = Some res \<Longrightarrow> \<exists>i' gs' g'. match_here p t i' gs' g' = Some res"
  by (cases x) (auto simp: Let_def simp del: upt.simps dest!: first_some_SomeD split: if_splits)

lemma search_SomeD: "search p t i = Some (s, e, g) \<Longrightarrow> match_here p t s s None = Some (e, g)"
  by (auto simp: search_def dest!: first_some_SomeD split: option.splits)

lemma search_NoneI: "(\<And>s. match_here p t s s None = None) \<Longrightarrow> search p t i = None"
  by (simp add: search_def first_some_None_iff)

lemma findall_NilI: "search p t 0 = None \<Longrightarrow> findall p t = []"
  by (simp add: findall_def)

lemma findall_ConsD:
  assumes "findall p t = m # ms"
  shows "\<exists>s e g. match_here p t s s None = Some (e, g) \<and> m = match_text p t s e g"
proof (cases "search p t 0")
  case None
  with assms show ?thesis by (simp add: findall_def)
next
  case (Some r)
  obtain s e g where r: "r = (s, e, g)" by (cases r)
  with Some assms have "m = match_text p t s e g" by (simp add: findall_def)
  moreover from Some r have "match_here p t s s None = Some (e, g)" by (simp add: search_SomeD)
  ultimately show ?thesis by blast
qed

lemma no_run_findall:
  assumes "digits_4_6 \<in> set p" and "\<not> has_four_digits t"
  shows "findall p t = []"
proof -
  have "match_here p t s s None = None" for s
  proof (cases "match_here p t s s None")
    case None
    then show ?thesis .
  next
    case (Some res)
    with assms match_needs_digits show ?thesis by blast
  qed
  then show ?thesis by (intro findall_NilI search_NoneI)
qed

lemma otp_patterns_digits: "p \<in> set otp_patterns \<Longrightarrow> digits_4_6 \<in> set p"
  by (auto simp: otp_patterns_def keyword_pattern_def)

lemma no_run_v2_loop:
  "\<forall>p \<in> set ps. digits_4_6 \<in> set p \<Longrightarrow> \<not> has_four_digits t \<Longrightarrow> extract_v2_loop ps t = None"
  by (induction ps) (simp_all add: no_run_findall)

lemma no_run_v1_loop:
  "\<forall>p \<in> set ps. digits_4_6 \<in> set p \<Longrightarrow> \<not> has_four_digits t \<Longrightarrow> extract_v1_loop ps t = None"
  by (induction ps) (simp_all add: no_run_findall)

lemma group_tail_span:
  "match_here (pre @ [Open, digits_4_6, Close]) t i gs g = Some (e, g') \<Longrightarrow>
   \<exists>a n. g' = Some (a, a + n) \<and> 4 \<le> n \<and> n \<le> 6 \<and> n \<le> run_length py_isdecimal (drop a t)"
proof (induction pre arbitrary: i gs g)
  case Nil
  then have "match_here (digits_4_6 # [Close]) t i i g = Some (e, g')" by simp
  from digits_item_match[OF this] obtain n where n: "4 \<le> n" "n \<le> 6" "n \<le> run_length py_isdecimal (drop i t)"
    and m: "match_here [Close] t (i + n) i g = Some (e, g')" by blast
  from m have "g' = Some (i, i + n)" by auto
  with n show ?case by blast
next
  case (Cons x pre)
  then have "match_here (x # (pre @ [Open, digits_4_6, Close])) t i gs g = Some (e, g')" by simp
  from match_cons_tail[OF this] Cons.IH show ?case by blast
qed

lemma bounded_pattern_span:
  assumes "match_here [WordB, digits_4_6, WordB] t s s None = Some (e, g)"
  shows "\<exists>n. e = s + n \<and> 4 \<le> n \<and> n \<le> 6 \<and> n \<le> run_length py_isdecimal (drop s t)"
proof -
  from assms have "match_here (digits_4_6 # [WordB]) t s s None = Some (e, g)"
    by (simp split: if_splits)
  from digits_item_match[OF this] obtain n where n: "4 \<le> n" "n \<le> 6" "n \<le> run_length py_isdecimal (drop s t)"
    and m: "match_here [WordB] t (s + n) s None = Some (e, g)" by blast
  from m have "e = s + n" by (simp split: if_splits)
  with n show ?thesis by blast
qed

lemma run_slice_decimal:
  assumes "4 \<le> n" "n \<le> 6" "n \<le> run_length py_isdecimal (drop a t)"
  shows "decimal_code (slice t a (a + n))"
  using take_run_length[OF assms(3)] assms(1,2) by (simp add: decimal_code_def slice_def)

lemma pattern_match_decimal:
  assumes p: "p \<in> set otp_patterns" and m: "match_here p t s s None = Some (e, g)"
  shows "decimal_code (match_text p t s e g)"
proof -
  from p consider "p = [WordB, digits_4_6, WordB]"
    | pre where "p = pre @ [Open, digits_4_6, Close]"
    by (auto simp: otp_patterns_def keyword_pattern_def)
  then show ?thesis
  proof cases
    case 1
    with m bounded_pattern_span obtain n where "e = s + n" "4 \<le> n" "n \<le> 6" "n \<le> run_length py_isdecimal (drop s t)"
      by blast
    with 1 show ?thesis by (simp add: match_text_def run_slice_decimal digits_4_6_def)
  next
    case 2
    with m group_tail_span obtain a n where "g = Some (a, a + n)" "4 \<le> n" "n \<le> 6" "n \<le> run_length py_isdecimal (drop a t)"
      by blast
    with 2 show ?thesis by (simp add: match_text_def run_slice_decimal)
  qed
qed

lemma findall_decimal:
  "p \<in> set otp_patterns \<Longrightarrow> findall p t = m # ms \<Longrightarrow> decimal_code m"
  using findall_ConsD pattern_match_decimal by blast

lemma v2_loop_decimal:
  "set ps \<subseteq> set otp_patterns \<Longrightarrow> extract_v2_loop ps t = Some otp \<Longrightarrow> decimal_code otp"
proof (induction ps)
  case Nil
  then show ?case by simp
next
  case (Cons p ps)
  show ?case
  proof (cases "findall p t")
    case Nil
    with Cons show ?thesis by simp
  next
    case (Cons m ms)
    with Cons.prems(1) have "decimal_code m" by (auto intro: findall_decimal)
    with Cons Cons.prems Cons.IH show ?thesis by (auto split: if_splits)
  qed
qed

lemma v1_loop_decimal:
  "set ps \<subseteq> set otp_patterns \<Longrightarrow> extract_v1_loop ps t = Some otp \<Longrightarrow> decimal_code otp"
proof (induction ps)
  case Nil
  then show ?case by simp
next
  case (Cons p ps)
  show ?case
  proof (cases "findall p t")
    case Nil
    with Cons show ?thesis by simp
  next
    case (Cons m ms)
    with Cons.prems(1) have "decimal_code m" by (auto intro: findall_decimal)
    with Cons Cons.prems show ?thesis by auto
  qed
qed

lemma extract_text_decimal: "extract_otp_from_text t = Some otp \<Longrightarrow> decimal_code otp"
  unfolding extract_otp_from_text_def by (rule v2_loop_decimal[OF subset_refl])

lemma scan_messages_decimal: "scan_messages ms = Some otp \<Longrightarrow> decimal_code otp"
  by (induction ms) (auto simp: Let_def split: if_splits http.splits option.splits dest: extract_text_decimal)

lemma get_otp_decimal: "get_otp svc email = Some otp \<Longrightarrow> decimal_code otp"
  by (auto simp: get_otp_def get_mailtm_otp_def try_10minutemail_otp_def try_tempmail_otp_def
      split: if_splits http.splits dest: scan_messages_decimal)

text \<open>
  Claim C4, as the code has it. OTP extraction on the body \<open>Your code is 482913\<close>
  returns \<open>482913\<close>, in both services; and on a text with no four consecutive decimal
  digits it returns none: the version-2 extractor on the text, the version-1 extractor
  when neither the body nor the subject has four consecutive decimal digits.
\<close>

theorem otp_extraction_example_and_none:
  "extract_otp_from_text ''Your code is 482913'' = Some ''482913''
   \<and> extract_otp_from_email \<lparr>subject = [], body = ''Your code is 482913''\<rparr> = Some ''482913''
   \<and> (\<not> has_four_digits text \<longrightarrow> extract_otp_from_text text = None)
   \<and> (\<not> has_four_digits (body email) \<and> \<not> has_four_digits (subject email)
        \<longrightarrow> extract_otp_from_email email = None)"
proof -
  have a: "extract_otp_from_text ''Your code is 482913'' = Some ''482913''"
    by code_simp
  have b: "extract_otp_from_email \<lparr>subject = [], body = ''Your code is 482913''\<rparr> = Some ''482913''"
    by code_simp
  have all: "\<forall>p \<in> set otp_patterns. digits_4_6 \<in> set p"
    by (simp add: otp_patterns_digits)
  have c: "\<not> has_four_digits text \<longrightarrow> extract_otp_from_text text = None"
    by (simp add: extract_otp_from_text_def no_run_v2_loop[OF all])
  have d: "\<not> has_four_digits (body email) \<and> \<not> has_four_digits (subject email)
        \<longrightarrow> extract_otp_from_email email = None"
    by (simp add: extract_otp_from_email_def no_run_v1_loop[OF all])
  from a b c d show ?thesis by blast
qed

theorem otp_extraction_example_and_none_witness:
  "\<not> has_four_digits ''Ref 123 of 99'' \<and> extract_otp_from_text ''Ref 123 of 99'' = None
   \<and> \<not> has_four_digits (body \<lparr>subject = ''Hello'', body = ''Ref 123 of 99''\<rparr>)
   \<and> \<not> has_four_digits (subject \<lparr>subject = ''Hello'', body = ''Ref 123 of 99''\<rparr>)
   \<and> extract_otp_from_email \<lparr>subject = ''Hello'', body = ''Ref 123 of 99''\<rparr> = None"
proof -
  have h1: "\<not> has_four_digits ''Ref 123 of 99''" by code_simp
  have h2: "\<not> has_four_digits ''Hello''" by code_simp
  from h1 h2
    otp_extraction_example_and_none
      [of "''Ref 123 of 99''" "\<lparr>subject = ''Hello'', body = ''Ref 123 of 99''\<rparr>"]
  show ?thesis by simp
qed

text \<open>
  The claim as the specification states it, for every input with no digit run of
  length 4 to 6, fails on a longer run. The only digit run of \<open>1234567\<close> has seven
  digits; it has no word boundary inside it, so the first pattern does not match, and
  the last pattern takes its first six digits.
\<close>

theorem seven_digit_run_yields_code:
  "digit_runs ''1234567'' = [''1234567'']
   \<and> has_run_of_4_to_6 ''1234567'' = False
   \<and> extract_otp_from_text ''1234567'' = Some ''123456''
   \<and> extract_otp_from_email \<lparr>subject = [], body = ''1234567''\<rparr> = Some ''123456''"
  by code_simp

text \<open>
  Claim C9. Whatever the input, \<open>_extract_otp_from_text\<close> returns none or a string
  of 4 to 6 characters, each a decimal digit; \<open>get_otp\<close>, which returns none or what
  the extractor found in a message, does the same.
\<close>

theorem otp_result_is_decimal_code:
  "(extract_otp_from_text text = Some otp \<longrightarrow>
      4 \<le> length otp \<and> length otp \<le> 6 \<and> (\<forall>c \<in> set otp. py_isdecimal c))
   \<and> (get_otp svc email = Some otp' \<longrightarrow>
      4 \<le> length otp' \<and> length otp' \<le> 6 \<and> (\<forall>c \<in> set otp'. py_isdecimal c))"
  using extract_text_decimal[of "text" otp] get_otp_decimal[of svc email otp']
  by (auto simp: decimal_code_def list_all_iff)

theorem otp_result_is_decimal_code_witness:
  "extract_otp_from_text ''OTP: 7391 (ref 22)'' = Some ''7391''
   \<and> get_otp \<lparr>service_used = Some ''Mail.tm'', auth_token = Some ''tok'',
        inbox = Response 200 [\<lparr>message_id = Some ''m1'',
          message_fetch = Response 200 (''Your code is 482913'', [])\<rparr>]\<rparr> ''a@b.c'' = Some ''482913''
   \<and> length ''7391'' = 4 \<and> list_all py_isdecimal ''7391''
   \<and> length ''482913'' = 6 \<and> list_all py_isdecimal ''482913''"
proof -
  have h1: "extract_otp_from_text ''OTP: 7391 (ref 22)'' = Some ''7391''" by code_simp
  have h2: "get_otp \<lparr>service_used = Some ''Mail.tm'', auth_token = Some ''tok'',
        inbox = Response 200 [\<lparr>message_id = Some ''m1'',
          message_fetch = Response 200 (''Your code is 482913'', [])\<rparr>]\<rparr> ''a@b.c'' = Some ''482913''"
    by code_simp
  from h1 h2
    otp_result_is_decimal_code [of "''OTP: 7391 (ref 22)''" "''7391''"
      "\<lparr>service_used = Some ''Mail.tm'', auth_token = Some ''tok'',
        inbox = Response 200 [\<lparr>message_id = Some ''m1'',
          message_fetch = Response 200 (''Your code is 482913'', [])\<rparr>]\<rparr>" "''a@b.c''" "''482913''"]
  show ?thesis by (simp add: list_all_iff)
qed


section \<open>Properties of the Google Sheets service\<close>

lemma py_lower_take_drop: "py_lower (take n (drop i s)) = take n (drop i (py_lower s))"
  by (simp add: py_lower_def take_map drop_map)

lemma lower_status: "py_lower ''status'' = ''status''"
  by code_simp

lemma starts_at_lower:
  assumes "py_lower needle = needle"
  shows "starts_at needle (py_lower h) = lit_at needle h"
proof (rule ext)
  fix i
  show "starts_at needle (py_lower h) i = lit_at needle h i"
    unfolding starts_at_def lit_at_def py_lower_take_drop assms ..
qed

text \<open>The test of the code, \<open>'status' in header.lower()\<close>, is the match of the specification.\<close>

lemma py_in_lower_status: "py_in ''status'' (py_lower h) = ci_contains ''status'' h"
proof -
  have "length (py_lower h) = length h" by (simp add: py_lower_def)
  then show ?thesis
    unfolding py_in_def ci_contains_def by (simp only: starts_at_lower[OF lower_status])
qed

lemma no_status_header:
  "\<forall>h \<in> set headers. \<not> ci_contains ''status'' h \<Longrightarrow> find_status_column headers i = None"
  by (induction headers arbitrary: i) (simp_all add: is_status_header_def py_in_lower_status)











text \<open>
  Claim C6. For every sheet whose header row has no cell that matches \<open>status\<close> by
  case-insensitive substring match, \<open>get_pending_records\<close> returns the empty list (a
  returned value, not an exception).
\<close>

theorem missing_status_header_gives_empty:
  "values = headers # rows \<Longrightarrow> \<forall>h \<in> set headers. \<not> ci_contains ''status'' h \<Longrightarrow>
   get_pending_records (Inr values) = Inr []"
  by (simp add: get_pending_records_def no_status_header)

theorem missing_status_header_gives_empty_witness:
  "(\<not> ci_contains ''status'' ''Name'' \<and> \<not> ci_contains ''status'' ''State'' \<and> \<not> ci_contains ''status'' [])
   \<and> get_pending_records (Inr [[''Name'', ''State'', []], [''Amal'', ''pending'']]) = Inr []"
proof -
  have h: "\<forall>h \<in> set [''Name'', ''State'', []]. \<not> ci_contains ''status'' h"
    by code_simp
  from h missing_status_header_gives_empty[OF refl h, of "[[''Amal'', ''pending'']]"]
  show ?thesis by simp
qed

text \<open>
  Claim C7. \<open>update_record_status\<close>, \<open>update_email_used\<close> and \<open>log_error\<close> are each
  idempotent: a second call with the same arguments, answered by the service as the
  first was, leaves the spreadsheet as the first call left it; and once a call has been
  accepted, a repeated call leaves the spreadsheet unchanged whether or not it is
  accepted.
\<close>

theorem sink_writes_idempotent:
  "snd (update_record_status a n v (snd (update_record_status a n v s))) = snd (update_record_status a n v s)
   \<and> snd (update_email_used a n v (snd (update_email_used a n v s))) = snd (update_email_used a n v s)
   \<and> snd (log_error a n v (snd (log_error a n v s))) = snd (log_error a n v s)
   \<and> snd (update_record_status b n v (snd (update_record_status True n v s))) = snd (update_record_status True n v s)
   \<and> snd (update_email_used b n v (snd (update_email_used True n v s))) = snd (update_email_used True n v s)
   \<and> snd (log_error b n v (snd (log_error True n v s))) = snd (log_error True n v s)"
  by (simp add: update_record_status_def update_email_used_def log_error_def values_update_def)

theorem sink_writes_idempotent_witness:
  "snd (update_record_status True 5 ''Failed'' (snd (update_record_status True 5 ''Failed'' Map.empty)))
     (sample_cell CHR ''H'' 5) = Some ''Failed''
   \<and> snd (update_record_status True 5 ''Failed'' (snd (update_record_status True 5 ''Failed'' Map.empty)))
     = snd (update_record_status True 5 ''Failed'' Map.empty)"
  using sink_writes_idempotent[of True 5 "''Failed''" Map.empty]
  by (simp add: update_record_status_def values_update_def)

section \<open>Properties of the pipeline\<close>

lemma run_steps_first_failure:
  "k < length fs \<Longrightarrow> (\<forall>j<k. fst ((fs ! j) (run_all (take j fs) s))) \<Longrightarrow>
   \<not> fst ((fs ! k) (run_all (take k fs) s)) \<Longrightarrow>
   run_steps fs s = (False, run_all (take (Suc k) fs) s)"
proof (induction fs arbitrary: k s)
  case Nil
  then show ?case by simp
next
  case (Cons f fs)
  show ?case
  proof (cases k)
    case 0
    with Cons.prems(3) show ?thesis by (cases "f s") auto
  next
    case (Suc k')
    from Cons.prems(2) Suc have ok: "fst (f s)" by force
    have "\<forall>j<k'. fst ((fs ! j) (run_all (take j fs) (snd (f s))))"
    proof (intro allI impI)
      fix j assume "j < k'"
      with Cons.prems(2)[rule_format, of "Suc j"] Suc show "fst ((fs ! j) (run_all (take j fs) (snd (f s))))"
        by simp
    qed
    moreover from Cons.prems(3) Suc have "\<not> fst ((fs ! k') (run_all (take k' fs) (snd (f s))))" by simp
    moreover from Cons.prems(1) Suc have "k' < length fs" by simp
    ultimately have "run_steps fs (snd (f s)) = (False, run_all (take (Suc k') fs) (snd (f s)))"
      by (rule Cons.IH[rotated -1, rotated -1])
    with ok Suc show ?thesis by (cases "f s") auto
  qed
qed

lemma process_record_run_steps:
  "process_record e self record w =
     (case run_steps (pipeline (site_of e (record_row record)) (record_fields record)) (record_start self record w) of
        (False, s) \<Rightarrow> (False, s)
      | (True, self6, w7) \<Rightarrow>
          (True, self6,
           (let w8 = sheets_update_record_status e (record_row record) ''In Progress'' w7
            in if truthy (current_email self6)
               then sheets_update_email_used e (record_row record) (the (current_email self6)) w8
               else w8)))"
  unfolding process_record_def pipeline_def record_start_def
  by (simp add: Let_def split: prod.splits)

lemma not_step_line:
  "hd line \<noteq> CHR ''S'' \<Longrightarrow> line \<notin> set (map step_started step_names)"
  unfolding step_started_def step_names_def by auto

lemma processing_line_is_no_step:
  "''STEP: Processing record - '' @ rest \<notin> set (map step_started step_names)"
  unfolding step_started_def step_names_def by simp

lemma steps_started_log_step:
  "name \<in> set step_names \<Longrightarrow>
   steps_started (log_step name ''STARTED'' w) = steps_started w @ [step_started name]"
  unfolding steps_started_def log_step_def step_started_def by simp

lemma steps_started_log_info:
  "hd message \<noteq> CHR ''S'' \<Longrightarrow> steps_started (log_info message w) = steps_started w"
  unfolding steps_started_def log_info_def using not_step_line by simp

lemma steps_started_typed [simp]:
  "steps_started (w\<lparr>typed := t\<rparr>) = steps_started w"
  unfolding steps_started_def by simp

lemma step_names_mem:
  "''Navigating to Nusuk website'' \<in> set step_names"
  "''Switching to English'' \<in> set step_names"
  "''Selecting Foreign Guest'' \<in> set step_names"
  "''Filling initial information'' \<in> set step_names"
  "''Filling personal details'' \<in> set step_names"
  "''Creating account'' \<in> set step_names"
  "''Verifying email with OTP'' \<in> set step_names"
  unfolding step_names_def by simp_all

lemma navigate_started:
  "steps_started (snd (navigate_to_nusuk self st w)) = steps_started w @ [step_started ''Navigating to Nusuk website'']"
  unfolding navigate_to_nusuk_def by (simp add: Let_def steps_started_log_step step_names_mem)

lemma switch_started:
  "steps_started (snd (switch_to_english st w)) = steps_started w @ [step_started ''Switching to English'']"
  unfolding switch_to_english_def by (simp add: Let_def steps_started_log_step step_names_mem)

lemma select_started:
  "steps_started (snd (select_foreign_guest st w)) = steps_started w @ [step_started ''Selecting Foreign Guest'']"
  unfolding select_foreign_guest_def by (simp add: Let_def steps_started_log_step step_names_mem)

lemma initial_started:
  "steps_started (snd (fill_initial_info st rd w)) = steps_started w @ [step_started ''Filling initial information'']"
  unfolding fill_initial_info_def
  by (simp add: Let_def steps_started_log_step step_names_mem split: prod.splits)

lemma personal_started:
  "steps_started (snd (fill_personal_details st rd w)) = steps_started w @ [step_started ''Filling personal details'']"
  unfolding fill_personal_details_def by (simp add: Let_def steps_started_log_step step_names_mem)

lemma account_started:
  "steps_started (snd (snd (create_account st self w))) = steps_started w @ [step_started ''Creating account'']"
  unfolding create_account_def
  by (simp add: Let_def steps_started_log_step steps_started_log_info step_names_mem)

lemma verify_started:
  "steps_started (snd (verify_email_otp st w)) = steps_started w @ [step_started ''Verifying email with OTP'']"
  unfolding verify_email_otp_def
  by (simp add: Let_def steps_started_log_step steps_started_log_info step_names_mem split: sum.splits)

lemma run_all_started:
  "list_all2 (\<lambda>f name. \<forall>s. steps_started (snd (snd (f s))) = steps_started (snd s) @ [step_started name]) fs names \<Longrightarrow>
   steps_started (snd (run_all (take k fs) s)) = steps_started (snd s) @ map step_started (take k names)"
proof (induction fs names arbitrary: k s rule: list_all2_induct)
  case Nil
  then show ?case by simp
next
  case (Cons f fs name names)
  show ?case
  proof (cases k)
    case 0
    then show ?thesis by simp
  next
    case (Suc k')
    from Cons.hyps(1)
    have "steps_started (snd (snd (f s))) = steps_started (snd s) @ [step_started name]"
      by blast
    with Cons.IH[of k' "snd (f s)"] Suc show ?thesis by simp
  qed
qed

lemma pipeline_started:
  "list_all2 (\<lambda>f name. \<forall>s. steps_started (snd (snd (f s))) = steps_started (snd s) @ [step_started name])
     (pipeline st rd) step_names"
  unfolding pipeline_def step_names_def
  using navigate_started switch_started select_started initial_started personal_started
    account_started verify_started
  by (simp add: split_def Let_def)

lemma record_start_started:
  "steps_started (snd (record_start self record w)) = steps_started w"
  unfolding record_start_def steps_started_def log_step_def
  using processing_line_is_no_step[of "''Row '' @ string_of_int (record_row record)"] by simp

lemma state_before_started:
  "steps_started (snd (state_before e self record w k)) = steps_started w @ map step_started (take k step_names)"
  unfolding state_before_def
  by (simp add: run_all_started[OF pipeline_started] record_start_started)

lemma pipeline_length: "length (pipeline st rd) = 7"
  unfolding pipeline_def by simp

lemma step_names_length: "length step_names = 7"
  unfolding step_names_def by simp

lemma process_record_first_failure:
  assumes "k < 7"
    and "\<forall>j<k. step_returns e self record w j"
    and "\<not> step_returns e self record w k"
  shows "process_record e self record w = (False, state_before e self record w (Suc k))"
proof -
  let ?fs = "pipeline (site_of e (record_row record)) (record_fields record)"
  have "run_steps ?fs (record_start self record w) = (False, run_all (take (Suc k) ?fs) (record_start self record w))"
    using assms unfolding step_returns_def state_before_def
    by (intro run_steps_first_failure) (simp_all add: pipeline_length)
  then show ?thesis
    unfolding state_before_def by (simp add: process_record_run_steps)
qed

text \<open>
  C2. If step \<open>k\<close> of the pipeline returns failure where \<open>process_record\<close> calls it
  (all steps before it having returned success), then \<open>process_record\<close> returns
  \<open>False\<close>, it leaves the bot and the world as step \<open>k\<close> left them, and the steps that
  were started are the first \<open>k + 1\<close>: none of the later steps is invoked.
\<close>

theorem first_failure_stops_pipeline:
  assumes "k < length step_names"
    and "\<forall>j<k. step_returns e self record w j"
    and "\<not> step_returns e self record w k"
  shows "process_record e self record w = (False, state_before e self record w (Suc k)) \<and>
         steps_started (snd (snd (process_record e self record w))) =
           steps_started w @ map step_started (take (Suc k) step_names)"
proof -
  from assms(1) have "k < 7" by (simp add: step_names_length)
  from process_record_first_failure[OF this assms(2,3)]
  show ?thesis by (simp add: state_before_started)
qed

theorem first_failure_stops_pipeline_witness:
  "fst (process_record sample_env ready_bot sample_record empty_world) = False \<and>
   logged (snd (snd (process_record sample_env ready_bot sample_record empty_world))) =
     [''STEP: Processing record - Row 5'',
      ''STEP: Navigating to Nusuk website - STARTED'',
      ''STEP: Switching to English - STARTED'',
      ''STEP: Selecting Foreign Guest - STARTED''] \<and>
   fst (process_record account_raises_env ready_bot sample_record empty_world) = False \<and>
   steps_started (snd (snd (process_record account_raises_env ready_bot sample_record empty_world))) =
     [''STEP: Navigating to Nusuk website - STARTED'',
      ''STEP: Switching to English - STARTED'',
      ''STEP: Selecting Foreign Guest - STARTED'',
      ''STEP: Filling initial information - STARTED'',
      ''STEP: Filling personal details - STARTED'',
      ''STEP: Creating account - STARTED'']"
proof -
  have h0: "step_returns sample_env ready_bot sample_record empty_world 0" by code_simp
  have h1: "step_returns sample_env ready_bot sample_record empty_world 1" by code_simp
  have h2: "\<not> step_returns sample_env ready_bot sample_record empty_world 2" by code_simp
  have lt: "(2::nat) < length step_names" by (simp add: step_names_length)
  have before: "\<forall>j<2. step_returns sample_env ready_bot sample_record empty_world j"
    using h0 h1 by (auto simp: less_2_cases_iff)
  have l: "logged (snd (state_before sample_env ready_bot sample_record empty_world (Suc 2))) =
     [''STEP: Processing record - Row 5'',
      ''STEP: Navigating to Nusuk website - STARTED'',
      ''STEP: Switching to English - STARTED'',
      ''STEP: Selecting Foreign Guest - STARTED'']" by code_simp
  from first_failure_stops_pipeline[OF lt before h2] l
  have a: "fst (process_record sample_env ready_bot sample_record empty_world) = False \<and>
   logged (snd (snd (process_record sample_env ready_bot sample_record empty_world))) =
     [''STEP: Processing record - Row 5'',
      ''STEP: Navigating to Nusuk website - STARTED'',
      ''STEP: Switching to English - STARTED'',
      ''STEP: Selecting Foreign Guest - STARTED'']" by simp
  have g0: "step_returns account_raises_env ready_bot sample_record empty_world 0" by code_simp
  have g1: "step_returns account_raises_env ready_bot sample_record empty_world 1" by code_simp
  have g2: "step_returns account_raises_env ready_bot sample_record empty_world 2" by code_simp
  have g3: "step_returns account_raises_env ready_bot sample_record empty_world 3" by code_simp
  have g4: "step_returns account_raises_env ready_bot sample_record empty_world 4" by code_simp
  have g5: "\<not> step_returns account_raises_env ready_bot sample_record empty_world 5" by code_simp
  have lt5: "(5::nat) < length step_names" by (simp add: step_names_length)
  have before5: "\<forall>j<5. step_returns account_raises_env ready_bot sample_record empty_world j"
  proof (intro allI impI)
    fix j :: nat
    assume "j < 5"
    then consider "j = 0" | "j = 1" | "j = 2" | "j = 3" | "j = 4" by linarith
    then show "step_returns account_raises_env ready_bot sample_record empty_world j"
      using g0 g1 g2 g3 g4 by cases simp_all
  qed
  have e: "steps_started empty_world = []" by code_simp
  note r = first_failure_stops_pipeline[OF lt5 before5 g5]
  from r[THEN conjunct1]
  have b: "fst (process_record account_raises_env ready_bot sample_record empty_world) = False"
    by simp
  from r[THEN conjunct2] e
  have c: "steps_started (snd (snd (process_record account_raises_env ready_bot sample_record empty_world))) =
     [''STEP: Navigating to Nusuk website - STARTED'',
      ''STEP: Switching to English - STARTED'',
      ''STEP: Selecting Foreign Guest - STARTED'',
      ''STEP: Filling initial information - STARTED'',
      ''STEP: Filling personal details - STARTED'',
      ''STEP: Creating account - STARTED'']"
    by (simp add: step_names_def step_started_def)
  from a b c show ?thesis by simp
qed









section \<open>Properties of the run\<close>

lemma navigate_world:
  "snd (navigate_to_nusuk self st w) = log_step ''Navigating to Nusuk website'' ''STARTED'' w"
  unfolding navigate_to_nusuk_def by (simp add: Let_def)

lemma switch_world:
  "snd (switch_to_english st w) = log_step ''Switching to English'' ''STARTED'' w"
  unfolding switch_to_english_def by (simp add: Let_def)

lemma select_world:
  "snd (select_foreign_guest st w) = log_step ''Selecting Foreign Guest'' ''STARTED'' w"
  unfolding select_foreign_guest_def by (simp add: Let_def)

lemma state_before_3:
  "state_before e self record w 3 =
     (self\<lparr>current_record := Some record\<rparr>,
      log_step ''Selecting Foreign Guest'' ''STARTED''
        (log_step ''Switching to English'' ''STARTED''
          (log_step ''Navigating to Nusuk website'' ''STARTED''
            (log_step ''Processing record'' (''Row '' @ string_of_int (record_row record)) w))))"
  unfolding state_before_def pipeline_def record_start_def
  by (simp add: numeral_3_eq_3 split_def Let_def navigate_world switch_world select_world)

lemma select_returns:
  "step_returns e self record w 2 =
     (guest_radio (site_of e (record_row record))
      \<or> list_ex (guest_fallback (site_of e (record_row record))) [0..<11]
      \<or> guest_text_search (site_of e (record_row record)))"
  unfolding step_returns_def pipeline_def select_foreign_guest_def
  by (simp add: split_def Let_def)

text \<open>
  Claim C1, as the code has it. When the first two steps go through and the selection
  of the guest type fails because neither the radio button, nor a fallback selector,
  nor the search of the page text resolves, the run writes \<open>Failed\<close> to the status
  cell of the row, if the spreadsheet accepts the write, and nothing else: every other
  cell, the error-log cell of the row among them, is as it was. No later step is
  started, no field is typed and no e-mail address is recorded for an account.
\<close>

theorem guest_selection_failure_marks_failed:
  assumes "step_returns e self record w 0"
    and "step_returns e self record w 1"
    and "\<not> guest_radio (site_of e (record_row record))"
    and "\<not> list_ex (guest_fallback (site_of e (record_row record))) [0..<11]"
    and "\<not> guest_text_search (site_of e (record_row record))"
  shows "sheet (snd (handle_record e self record w)) =
           (if sink_accepts e (sample_cell CHR ''H'' (record_row record))
            then (sheet w)(sample_cell CHR ''H'' (record_row record) \<mapsto> ''Failed'')
            else sheet w)
         \<and> sheet (snd (handle_record e self record w)) (sample_cell CHR ''N'' (record_row record)) =
             sheet w (sample_cell CHR ''N'' (record_row record))
         \<and> steps_started (snd (handle_record e self record w)) =
             steps_started w @ map step_started (take 3 step_names)
         \<and> typed (snd (handle_record e self record w)) = typed w
         \<and> current_email (fst (handle_record e self record w)) = current_email self"
proof -
  have before: "\<forall>j<2. step_returns e self record w j"
    using assms(1,2) by (auto simp: less_2_cases_iff)
  have fails: "\<not> step_returns e self record w 2"
    using assms(3,4,5) by (simp add: select_returns)
  have "process_record e self record w = (False, state_before e self record w (Suc 2))"
    using before fails by (intro process_record_first_failure) simp_all
  then have p: "process_record e self record w = (False, state_before e self record w 3)"
    by (simp add: numeral_3_eq_3)
  have h: "handle_record e self record w =
             (fst (state_before e self record w 3),
              sheets_update_record_status e (record_row record) ''Failed''
                (snd (state_before e self record w 3)))"
    unfolding handle_record_def p by (simp add: split_def)
  have s: "steps_started (snd (handle_record e self record w)) =
             steps_started w @ map step_started (take 3 step_names)"
    unfolding h using state_before_started[of e self "record" w 3]
    by (simp add: sheets_update_record_status_def steps_started_def)
  have n: "sample_cell CHR ''N'' (record_row record) \<noteq> sample_cell CHR ''H'' (record_row record)"
    by (simp add: sample_cell_def)
  show ?thesis
    using s n unfolding h state_before_3
    by (simp add: sheets_update_record_status_def update_record_status_def values_update_def
          log_step_def)
qed

theorem guest_selection_failure_marks_failed_witness:
  "sheet (snd (handle_record sample_env ready_bot sample_record empty_world)) =
     Map.empty(sample_cell CHR ''H'' 5 \<mapsto> ''Failed'')
   \<and> typed (snd (handle_record sample_env ready_bot sample_record empty_world)) = []
   \<and> current_email (fst (handle_record sample_env ready_bot sample_record empty_world)) = None"
proof -
  have h0: "step_returns sample_env ready_bot sample_record empty_world 0" by code_simp
  have h1: "step_returns sample_env ready_bot sample_record empty_world 1" by code_simp
  have h2: "\<not> guest_radio (site_of sample_env (record_row sample_record))" by code_simp
  have h3: "\<not> list_ex (guest_fallback (site_of sample_env (record_row sample_record))) [0..<11]"
    by code_simp
  have h4: "\<not> guest_text_search (site_of sample_env (record_row sample_record))" by code_simp
  from guest_selection_failure_marks_failed[OF h0 h1 h2 h3 h4]
  show ?thesis
    by (simp add: sample_env_def sample_record_def empty_world_def ready_bot_def new_bot_def)
qed

text \<open>
  The claim as the specification states it asks for a non-empty error detail in the
  status sink. In the run on the sample sheet, where the selection of the guest type
  fails for row 5, the status cell of the row holds \<open>Failed\<close> at the end and its
  error-log cell is empty: \<open>log_error\<close> is called from the exception handlers only,
  and a step that fails returns \<open>False\<close>.
\<close>

theorem failed_guest_selection_leaves_no_error_detail:
  "map record_row (case get_pending_records (sheet_read sample_env) of Inr records \<Rightarrow> records | Inl err \<Rightarrow> []) = [5]
   \<and> fst (select_foreign_guest (site_of sample_env 5) empty_world) = False
   \<and> sheet (snd (snd (run_automation sample_env new_bot empty_world))) (sample_cell CHR ''H'' 5) = Some ''Failed''
   \<and> sheet (snd (snd (run_automation sample_env new_bot empty_world))) (sample_cell CHR ''N'' 5) = None"
  by code_simp

text \<open>
  Claim C8 does not hold of the code. \<open>_setup_undetected_driver\<close> has no \<open>return True\<close>,
  so when Firefox does not start and undetected Chrome does, \<open>setup_driver\<close> goes on to
  \<open>_setup_standard_driver\<close>: a second profile directory replaces the first in
  \<open>temp_dir\<close> and a second browser replaces the first in \<open>driver\<close>. At the end of the run
  the first directory still exists and the first browser session is still open.
\<close>

theorem second_driver_setup_leaks_profile:
  "fst (run_automation (sample_env\<lparr>firefox_starts := False\<rparr>) new_bot empty_world) = None
   \<and> tmp_dirs (snd (snd (run_automation (sample_env\<lparr>firefox_starts := False\<rparr>) new_bot empty_world))) = {0}
   \<and> sessions (snd (snd (run_automation (sample_env\<lparr>firefox_starts := False\<rparr>) new_bot empty_world))) = {1}"
  by code_simp

end
